theory Spec2Isabelle
  imports Complex_Main "HOL-Library.AList"
begin

section \<open>Values\<close>

text \<open>
  The losses of \<^verbatim>\<open>sherpa/resultstable.py\<close> are \<^verbatim>\<open>np.float64\<close> values that are only
  stored, compared and sorted. They are modelled as the reals extended by \<^verbatim>\<open>np.inf\<close>;
  rounding, NaN and negative infinity are not represented.
\<close>

datatype float64 = Fin real | PInf

instantiation float64 :: linorder
begin

fun less_eq_float64 :: "float64 \<Rightarrow> float64 \<Rightarrow> bool" where
  "less_eq_float64 (Fin a) (Fin b) = (a \<le> b)"
| "less_eq_float64 PInf (Fin b) = False"
| "less_eq_float64 x PInf = True"

definition less_float64 :: "float64 \<Rightarrow> float64 \<Rightarrow> bool" where
  "less_float64 x y = (x \<le> y \<and> \<not> y \<le> x)"

instance
proof
  fix x y z :: float64
  show "(x < y) = (x \<le> y \<and> \<not> y \<le> x)"
    by (simp add: less_float64_def)
  show "x \<le> x"
    by (cases x) simp_all
  show "x \<le> y \<Longrightarrow> y \<le> z \<Longrightarrow> x \<le> z"
    by (cases x; cases y; cases z) simp_all
  show "x \<le> y \<Longrightarrow> y \<le> x \<Longrightarrow> x = y"
    by (cases x; cases y) simp_all
  show "x \<le> y \<or> y \<le> x"
    by (cases x; cases y) auto
qed

end

text \<open>
  A Python value as it occurs in a hyperparameter dict or in a cell of the data frame.
  \<open>HNone\<close> is \<^verbatim>\<open>None\<close> (a missing cell reads as it). \<open>HStrOf v\<close> is the string
  \<^verbatim>\<open>str(v)\<close>, kept symbolic: nothing in the table depends on its characters.
\<close>

datatype hpval =
    HNone
  | HInt int
  | HFloat float64
  | HStr string
  | HBool bool
  | HList "hpval list"
  | HDict "(string \<times> hpval) list"
  | HStrOf hpval

datatype pytype = TNone | TInt | TFloat | TStr | TBool | TList | TDict

fun py_type :: "hpval \<Rightarrow> pytype" where
  "py_type HNone = TNone"
| "py_type (HInt _) = TInt"
| "py_type (HFloat _) = TFloat"
| "py_type (HStr _) = TStr"
| "py_type (HBool _) = TBool"
| "py_type (HList _) = TList"
| "py_type (HDict _) = TDict"
| "py_type (HStrOf _) = TStr"

definition py_str :: "hpval \<Rightarrow> hpval" where
  "py_str v = HStrOf v"

text \<open>A dict is an association list with the keys in insertion order.\<close>

type_synonym dict = "(string \<times> hpval) list"

definition dict_get :: "dict \<Rightarrow> string \<Rightarrow> hpval" where
  \<comment> \<open>\<^verbatim>\<open>d[k]\<close>, read only at keys of \<open>d\<close> and at columns of the frame, where a row
      created without the column reads as missing\<close>
  "dict_get d k = (case map_of d k of Some v \<Rightarrow> v | None \<Rightarrow> HNone)"

definition dict_update :: "dict \<Rightarrow> dict \<Rightarrow> dict" where
  \<comment> \<open>\<^verbatim>\<open>d.update(other)\<close>\<close>
  "dict_update d other = fold (\<lambda>(k, v). AList.update k v) other d"

section \<open>Errors\<close>

text \<open>
  One constructor per raise site, under the name the specification gives it:
  \<^item> \<open>IndexNotFound\<close>: the \<^verbatim>\<open>assert index in self.get_indices()\<close> of \<^verbatim>\<open>on_finish\<close>;
  \<^item> \<open>HistoryUnavailable\<close>: the \<^verbatim>\<open>ValueError\<close> raised when opening or loading the history file
    raises \<^verbatim>\<open>OSError\<close>;
  \<^item> \<open>MissingMetric\<close>: the \<^verbatim>\<open>assert self.loss in history\<close>;
  \<^item> \<open>MissingHyperparameters\<close>: the \<^verbatim>\<open>assert hp\<close> of \<^verbatim>\<open>_set\<close>;
  \<^item> \<open>InsufficientResults\<close>: the \<^verbatim>\<open>ValueError\<close> of \<^verbatim>\<open>get_k_lowest\<close>;
  \<^item> \<open>NotImplementedError\<close>: raised by the methods of \<^verbatim>\<open>AbstractResultsTable\<close> that a subclass
    does not override;
  \<^item> \<open>KeyError\<close>, \<open>IndexError\<close>, \<open>AttributeError\<close>: raised by pandas or the interpreter on a
    missing column, a position out of range, a missing method.
\<close>

datatype error =
    IndexNotFound
  | HistoryUnavailable
  | MissingMetric
  | MissingHyperparameters
  | InsufficientResults
  | NotImplementedError
  | KeyError
  | IndexError
  | AttributeError

section \<open>The data frame\<close>

text \<open>
  A \<^verbatim>\<open>pd.DataFrame\<close>: its column names and its rows in their current order. A row carries
  its index label and its cells; a column the row was created without reads \<open>HNone\<close>.
\<close>

record row =
  label :: int
  cells :: dict

record dataframe =
  columns :: "string list"
  rows :: "row list"

definition DataFrame :: dataframe where
  \<comment> \<open>\<^verbatim>\<open>pd.DataFrame()\<close>\<close>
  "DataFrame = \<lparr>columns = [], rows = []\<rparr>"

definition cell :: "row \<Rightarrow> string \<Rightarrow> hpval" where
  "cell r col = dict_get (cells r) col"

definition df_index :: "dataframe \<Rightarrow> int list" where
  \<comment> \<open>\<^verbatim>\<open>df.index\<close>\<close>
  "df_index d = map label (rows d)"

definition add_columns :: "string list \<Rightarrow> string list \<Rightarrow> string list" where
  "add_columns cs new = cs @ filter (\<lambda>c. c \<notin> set cs) (remdups new)"

definition set_value :: "dataframe \<Rightarrow> int \<Rightarrow> string \<Rightarrow> hpval \<Rightarrow> dataframe" where
  \<comment> \<open>\<^verbatim>\<open>df.set_value(index=index, col=col, value=value)\<close>, in place\<close>
  "set_value d index col v =
     \<lparr>columns = add_columns (columns d) [col],
      rows = map (\<lambda>r. if label r = index then r\<lparr>cells := AList.update col v (cells r)\<rparr> else r)
               (rows d)\<rparr>"

definition df_append :: "dataframe \<Rightarrow> dataframe \<Rightarrow> dataframe" where
  \<comment> \<open>\<^verbatim>\<open>df.append(other)\<close>\<close>
  "df_append d other =
     \<lparr>columns = add_columns (columns d) (columns other), rows = rows d @ rows other\<rparr>"

text \<open>
  \<^verbatim>\<open>df.sort_values(by='Loss')\<close>. The \<^verbatim>\<open>Loss\<close> cells are floats (\<^verbatim>\<open>_set\<close> writes
  them); a cell that is not a number ranks last, as a missing value does. The sort is
  modelled as stable: rows of equal loss keep their order. (The default sort of pandas is
  stable on short columns and gives no guarantee on long ones.)
\<close>

definition loss_of_cells :: "dict \<Rightarrow> float64" where
  "loss_of_cells c =
     (case map_of c ''Loss'' of
        Some (HFloat x) \<Rightarrow> x
      | Some (HInt n) \<Rightarrow> Fin (real_of_int n)
      | _ \<Rightarrow> PInf)"

definition loss_of :: "row \<Rightarrow> float64" where
  "loss_of r = loss_of_cells (cells r)"

definition sort_values :: "dataframe \<Rightarrow> dataframe" where
  "sort_values d = d\<lparr>rows := sort_key loss_of (rows d)\<rparr>"

definition to_csv :: "dataframe \<Rightarrow> string list \<times> dict list" where
  \<comment> \<open>\<^verbatim>\<open>df.to_csv(path, index=False)\<close>: the header and the rows, without the index labels\<close>
  "to_csv d = (columns d, map cells (rows d))"

section \<open>History files\<close>

text \<open>
  What \<^verbatim>\<open>open(historyfile, 'rb')\<close> followed by \<^verbatim>\<open>pkl.load(f)\<close> gives: an
  \<^verbatim>\<open>OSError\<close>, or the pickled history dict, of which the table reads the metric
  sequences. (A file that opens and does not unpickle raises another exception, which
  \<^verbatim>\<open>on_finish\<close> does not catch; it is not represented.)
\<close>

type_synonym history = "(string \<times> float64 list) list"

datatype history_file = OSError | Pickled history

section \<open>The results table\<close>

text \<open>
  The attributes of a \<^verbatim>\<open>ResultsTable\<close>, the file at \<^verbatim>\<open>csv_path\<close>, and the
  hyperparameter dicts of the interpreter's store: \<open>heap s a\<close> is the dict at address \<open>a\<close>,
  and the addresses below \<open>next_free s\<close> are in use. \<open>hist2loss\<close> is \<open>None\<close> as long as the
  attribute does not exist.
\<close>

type_synonym addr = nat

record state =
  loss :: string
  loss_summary :: "float64 list \<Rightarrow> float64"
  hist2loss :: "(float64 list \<Rightarrow> float64) option"
  dtypes :: "(string \<times> pytype) list"
  df :: dataframe
  csv :: "string list \<times> dict list"
  heap :: "addr \<Rightarrow> dict"
  next_free :: addr

definition keys :: "string list" where
  "keys = [''ID'', ''Loss'', ''Epochs'', ''History'', ''Pending'']"

definition priv_save :: "state \<Rightarrow> state" where
  \<comment> \<open>\<^verbatim>\<open>_save\<close>\<close>
  "priv_save s =
     (let s1 = (if ''Loss'' \<in> set (columns (df s)) then s\<lparr>df := sort_values (df s)\<rparr> else s)
      in s1\<lparr>csv := to_csv (df s1)\<rparr>)"

definition priv_create_table :: "state \<Rightarrow> state" where
  \<comment> \<open>\<^verbatim>\<open>_create_table\<close>\<close>
  "priv_create_table s = priv_save (s\<lparr>df := DataFrame\<rparr>)"

definition init :: "string \<Rightarrow> (float64 list \<Rightarrow> float64) option \<Rightarrow> state" where
  \<comment> \<open>\<^verbatim>\<open>ResultsTable.__init__(dir, loss, loss_summary)\<close> with \<^verbatim>\<open>load_results=None\<close>,
      in an interpreter that holds no hyperparameter dict yet\<close>
  "init lossk summary =
     priv_create_table
       \<lparr>loss = lossk,
        loss_summary = (case summary of None \<Rightarrow> last | Some f \<Rightarrow> f),
        hist2loss = None,
        dtypes = [(''ID'', TInt), (''Loss'', TFloat), (''Epochs'', TInt), (''History'', TStr),
                  (''Pending'', TBool)],
        df = DataFrame,
        csv = ([], []),
        heap = (\<lambda>_. []),
        next_free = 0\<rparr>"

definition new_dict :: "state \<Rightarrow> dict \<Rightarrow> addr \<times> state" where
  \<comment> \<open>the caller builds a dict; its address is returned\<close>
  "new_dict s d = (next_free s, s\<lparr>heap := (heap s)(next_free s := d), next_free := Suc (next_free s)\<rparr>)"

definition deepcopy :: "state \<Rightarrow> addr \<Rightarrow> addr \<times> state" where
  \<comment> \<open>\<^verbatim>\<open>copy.deepcopy(hp)\<close>: a fresh dict with the same contents (the values of a dict
      are values here, not references, so the copy shares nothing with the original)\<close>
  "deepcopy s a = new_dict s (heap s a)"

text \<open>
  The loop \<^verbatim>\<open>for key in hp\<close> of \<^verbatim>\<open>_set\<close>, on the dict at address \<open>c\<close>: a list or
  dict value is replaced by its string, in the dict itself, and a key that \<^verbatim>\<open>self.dtypes\<close>
  does not know yet is registered with the type of its value.
\<close>

fun flatten_loop :: "addr \<Rightarrow> string list \<Rightarrow> state \<Rightarrow> state" where
  "flatten_loop c [] s = s"
| "flatten_loop c (key # ks) s =
     (let s1 = (if py_type (dict_get (heap s c) key) \<in> {TList, TDict}
                then s\<lparr>heap := (heap s)(c := AList.update key (py_str (dict_get (heap s c) key)) (heap s c))\<rparr>
                else s);
          s2 = (if key \<notin> fst ` set (dtypes s1)
                then s1\<lparr>dtypes := dtypes s1 @ [(key, py_type (dict_get (heap s1 c) key))]\<rparr>
                else s1)
      in flatten_loop c ks s2)"

text \<open>
  \<^verbatim>\<open>_set\<close>. An index of the table takes the update branch. Otherwise \<^verbatim>\<open>assert hp\<close>
  rejects \<^verbatim>\<open>None\<close> and the empty dict; then \<^verbatim>\<open>hp\<close> is rebound to a deep copy, the loop
  runs on the copy, and the new row is the dict of the five fixed columns updated with the
  copy (\<^verbatim>\<open>new_dict.update(hp)\<close>: a hyperparameter named like a fixed column replaces that
  cell).
\<close>

definition opt_str :: "string option \<Rightarrow> hpval" where
  "opt_str x = (case x of None \<Rightarrow> HNone | Some p \<Rightarrow> HStr p)"

definition priv_set ::
  "state \<Rightarrow> int \<Rightarrow> float64 \<Rightarrow> int \<Rightarrow> addr option \<Rightarrow> string option \<Rightarrow> bool
     \<Rightarrow> (error + unit) \<times> state" where
  \<comment> \<open>\<^verbatim>\<open>_set(index, loss, epochs, hp, historyfile, pending)\<close>\<close>
  "priv_set s index lossv epochs hp historyfile pending =
     (if index \<in> set (df_index (df s)) then
        (let d1 = set_value (df s) index ''Loss'' (HFloat lossv);
             d2 = set_value d1 index ''Epochs'' (HInt epochs);
             d3 = set_value d2 index ''History'' (opt_str historyfile);
             d4 = set_value d3 index ''Pending'' (HBool pending)
         in (Inr (), priv_save (s\<lparr>df := d4\<rparr>)))
      else
        (case hp of
           None \<Rightarrow> (Inl MissingHyperparameters, s)
         | Some a \<Rightarrow>
             if heap s a = [] then (Inl MissingHyperparameters, s)
             else
               (let (c, s1) = deepcopy s a;
                    s2 = flatten_loop c (map fst (heap s1 c)) s1;
                    nd = dict_update
                           [(''ID'', HInt index), (''Loss'', HFloat lossv), (''Epochs'', HInt epochs),
                            (''History'', opt_str historyfile), (''Pending'', HBool pending)]
                           (heap s2 c);
                    new_line = \<lparr>columns = map fst nd, rows = [\<lparr>label = index, cells = nd\<rparr>]\<rparr>
                in (Inr (), priv_save (s2\<lparr>df := df_append (df s2) new_line\<rparr>)))))"

text \<open>The four \<^verbatim>\<open>set_value\<close> calls of the update branch of \<^verbatim>\<open>_set\<close>, in their order.\<close>

definition updated :: "dataframe \<Rightarrow> int \<Rightarrow> float64 \<Rightarrow> int \<Rightarrow> string option \<Rightarrow> bool \<Rightarrow> dataframe" where
  "updated d index l e h p =
     set_value (set_value (set_value (set_value d index ''Loss'' (HFloat l)) index ''Epochs'' (HInt e))
        index ''History'' (opt_str h)) index ''Pending'' (HBool p)"

definition get_indices :: "state \<Rightarrow> int list" where
  \<comment> \<open>\<^verbatim>\<open>get_indices()\<close>, that is with \<^verbatim>\<open>hp=None\<close>\<close>
  "get_indices s = df_index (df s)"

definition get_pending :: "state \<Rightarrow> (error + int list) \<times> state" where
  \<comment> \<open>\<^verbatim>\<open>ResultsTable\<close> does not override it: the method of \<^verbatim>\<open>AbstractResultsTable\<close> runs\<close>
  "get_pending s = (Inl NotImplementedError, s)"

definition on_start :: "state \<Rightarrow> addr option \<Rightarrow> (error + int) \<times> state" where
  "on_start s hp =
     (let indices = get_indices s;
          index = (if length indices = 0 then 0 else Max (set indices) + 1)
      in case priv_set s index PInf 0 hp None True of
           (Inl e, s') \<Rightarrow> (Inl e, s')
         | (Inr _, s') \<Rightarrow> (Inr index, s'))"

definition next_index :: "state \<Rightarrow> int" where
  \<comment> \<open>the index that \<^verbatim>\<open>on_start\<close> computes before it calls \<^verbatim>\<open>_set\<close>\<close>
  "next_index s =
     (if length (get_indices s) = 0 then 0 else Max (set (get_indices s)) + 1)"

definition on_finish :: "(string \<Rightarrow> history_file) \<Rightarrow> state \<Rightarrow> int \<Rightarrow> string \<Rightarrow> (error + unit) \<times> state" where
  "on_finish fs s index historyfile =
     (if index \<notin> set (get_indices s) then (Inl IndexNotFound, s)
      else
        (case fs historyfile of
           OSError \<Rightarrow> (Inl HistoryUnavailable, s)
         | Pickled history \<Rightarrow>
             (case map_of history (loss s) of
                None \<Rightarrow> (Inl MissingMetric, s)
              | Some readings \<Rightarrow>
                  (let epochs_seen = int (length readings);
                       lowest_loss = (if epochs_seen > 0 then loss_summary s readings else PInf)
                   in priv_set s index lowest_loss epochs_seen None (Some historyfile) False))))"

section \<open>Selection\<close>

definition is_False :: "hpval \<Rightarrow> bool" where
  \<comment> \<open>\<^verbatim>\<open>value == False\<close>\<close>
  "is_False v = (v = HBool False \<or> v = HInt 0 \<or> v = HFloat (Fin 0))"

definition get_k_lowest :: "state \<Rightarrow> nat \<Rightarrow> bool \<Rightarrow> (error + dataframe) \<times> state" where
  "get_k_lowest s k ignore_pending =
     (if ''Loss'' \<notin> set (columns (df s)) then (Inl KeyError, s)
      else
        (let data = sort_values (df s);
             data = (if ignore_pending
                     then data\<lparr>rows := filter (\<lambda>r. is_False (cell r ''Pending'')) (rows data)\<rparr>
                     else data)
         in if length (rows data) < k then (Inl InsufficientResults, s)
            else (Inr (data\<lparr>rows := take k (rows data)\<rparr>), s)))"

definition get_best :: "state \<Rightarrow> bool \<Rightarrow> (error + dict) \<times> state" where
  "get_best s ignore_pending =
     (case get_k_lowest s 1 ignore_pending of
        (Inl e, s') \<Rightarrow> (Inl e, s')
      | (Inr data, s') \<Rightarrow>
          (case rows data of
             [] \<Rightarrow> (Inl IndexError, s')
           | r # _ \<Rightarrow> (Inr (zip keys (map (\<lambda>k. cell r k) keys)), s')))"

text \<open>
  \<^verbatim>\<open>update_hist2loss\<close>: the attribute \<^verbatim>\<open>hist2loss\<close> is assigned, then the loop over
  \<^verbatim>\<open>self.df.index\<close> reads the row at the position \<^verbatim>\<open>index\<close> and calls \<^verbatim>\<open>self.update\<close>,
  a method that no class of the module defines.
\<close>

definition iloc :: "dataframe \<Rightarrow> int \<Rightarrow> error + row" where
  \<comment> \<open>\<^verbatim>\<open>df.iloc[i]\<close>: by position, a negative position counts from the end\<close>
  "iloc d i =
     (let n = int (length (rows d)); j = (if i < 0 then n + i else i)
      in if 0 \<le> j \<and> j < n then Inr (rows d ! nat j) else Inl IndexError)"

fun update_loop :: "state \<Rightarrow> int list \<Rightarrow> (error + unit) \<times> state" where
  "update_loop s [] = (Inr (), s)"
| "update_loop s (index # rest) =
     (case iloc (df s) index of
        Inl e \<Rightarrow> (Inl e, s)
      | Inr r \<Rightarrow> (Inl AttributeError, s))"

definition update_hist2loss :: "state \<Rightarrow> (float64 list \<Rightarrow> float64) \<Rightarrow> (error + unit) \<times> state" where
  "update_hist2loss s h = update_loop (s\<lparr>hist2loss := Some h\<rparr>) (df_index (df s))"

section \<open>Properties of a state\<close>

text \<open>
  The file at \<^verbatim>\<open>csv_path\<close> holds the table as it is in memory, and the rows of both are
  in ascending order of \<^verbatim>\<open>Loss\<close>.
\<close>

abbreviation written_through :: "state \<Rightarrow> bool" where
  "written_through s \<equiv>
     csv s = to_csv (df s) \<and> sorted (map loss_of (rows (df s))) \<and>
     sorted (map loss_of_cells (snd (csv s)))"

text \<open>
  The rows among which \<^verbatim>\<open>get_k_lowest\<close> selects: all rows, or the rows that are not
  pending, in the order they have in the table.
\<close>

abbreviation candidates :: "state \<Rightarrow> bool \<Rightarrow> row list" where
  "candidates s ignore_pending \<equiv>
     filter (\<lambda>r. ignore_pending \<longrightarrow> is_False (cell r ''Pending'')) (rows (df s))"

section \<open>Callers\<close>



section \<open>Example runs\<close>

text \<open>
  Five history files: one reading \<open>0.2\<close>; the readings \<open>0.5, 0.2\<close>; a file without the
  metric \<^verbatim>\<open>loss\<close>; a file with no reading at all; one reading \<open>0.5\<close>. Any other path
  cannot be opened.
\<close>

definition ex_fs :: "string \<Rightarrow> history_file" where
  "ex_fs p =
     (if p = ''h0'' then Pickled [(''loss'', [Fin (1/5)])]
      else if p = ''h1'' then Pickled [(''loss'', [Fin (1/2), Fin (1/5)])]
      else if p = ''h2'' then Pickled [(''acc'', [Fin 1])]
      else if p = ''h3'' then Pickled [(''loss'', [])]
      else if p = ''h4'' then Pickled [(''loss'', [Fin (1/2)])]
      else OSError)"

definition ex_hp :: dict where
  "ex_hp = [(''lr'', HFloat (Fin (1/10))), (''layers'', HList [HInt 3, HInt 4])]"

text \<open>A new table with the metric \<^verbatim>\<open>loss\<close> and the default summary; the caller's
  hyperparameter dict is at address 0.\<close>

definition ex0 :: state where
  "ex0 = snd (new_dict (init ''loss'' None) ex_hp)"


text \<open>Two trials are started, then trial 1 finishes with \<^verbatim>\<open>h1\<close>, then trial 0 with \<^verbatim>\<open>h0\<close>.\<close>

definition ex1 :: state where
  "ex1 = snd (on_start ex0 (Some 0))"

definition ex2 :: state where
  "ex2 = snd (on_start ex1 (Some 0))"

definition ex3 :: state where
  "ex3 = snd (on_finish ex_fs ex2 1 ''h1'')"

definition ex4 :: state where
  "ex4 = snd (on_finish ex_fs ex3 0 ''h0'')"

text \<open>From \<open>ex2\<close>: trial 0 finishes with \<^verbatim>\<open>h4\<close> (loss 0.5), then trial 1 with \<^verbatim>\<open>h0\<close>
  (loss 0.2).\<close>

definition ex5 :: state where
  "ex5 = snd (on_finish ex_fs ex2 0 ''h4'')"

definition ex6 :: state where
  "ex6 = snd (on_finish ex_fs ex5 1 ''h0'')"

text \<open>A summary function that differs from the default one: the first reading.\<close>

definition ex_first :: "float64 list \<Rightarrow> float64" where
  "ex_first xs = (case xs of [] \<Rightarrow> PInf | x # _ \<Rightarrow> x)"

section \<open>Basic facts\<close>

lemma df_index_append: "df_index (df_append d other) = df_index d @ df_index other"
  by (simp add: df_index_def df_append_def)

lemma df_index_single: "df_index \<lparr>columns = cs, rows = [\<lparr>label = i, cells = c\<rparr>]\<rparr> = [i]"
  by (simp add: df_index_def)

lemma priv_save_index_set: "set (df_index (df (priv_save s))) = set (df_index (df s))"
  by (simp add: priv_save_def sort_values_def df_index_def Let_def)

lemma flatten_loop_df: "df (flatten_loop c ks s) = df s"
  by (induction ks arbitrary: s) (simp_all add: Let_def)

lemma flatten_loop_next_free: "next_free (flatten_loop c ks s) = next_free s"
  by (induction ks arbitrary: s) (simp_all add: Let_def)

lemma flatten_loop_heap: "a \<noteq> c \<Longrightarrow> heap (flatten_loop c ks s) a = heap s a"
  by (induction ks arbitrary: s) (simp_all add: Let_def)

lemma priv_set_fresh:
  assumes "index \<notin> set (df_index (df s))" and "heap s a \<noteq> []"
  shows "fst (priv_set s index l e (Some a) h p) = Inr ()"
    and "set (df_index (df (snd (priv_set s index l e (Some a) h p)))) =
           insert index (set (df_index (df s)))"
  using assms
  by (simp_all add: priv_set_def deepcopy_def new_dict_def Let_def priv_save_index_set
      flatten_loop_df df_index_append df_index_single split: prod.splits)

lemma priv_set_fail:
  "fst (priv_set s index l e hp h p) = Inl err \<Longrightarrow> snd (priv_set s index l e hp h p) = s"
proof (cases "index \<in> set (df_index (df s))")
  case True
  assume "fst (priv_set s index l e hp h p) = Inl err"
  with True show ?thesis by (simp add: priv_set_def Let_def)
next
  case False
  assume f: "fst (priv_set s index l e hp h p) = Inl err"
  show ?thesis
  proof (cases hp)
    case None
    with False show ?thesis by (simp add: priv_set_def)
  next
    case (Some a)
    show ?thesis
    proof (cases "heap s a = []")
      case True
      with False Some show ?thesis by (simp add: priv_set_def)
    next
      case ne: False
      have "fst (priv_set s index l e hp h p) = Inr ()"
        using priv_set_fresh(1)[OF False ne] Some by simp
      with f show ?thesis by simp
    qed
  qed
qed

section \<open>The two branches of \<^verbatim>\<open>_set\<close>\<close>

lemma dict_get_update: "dict_get (AList.update k v d) k' = (if k' = k then v else dict_get d k')"
  by (simp add: dict_get_def AList.update_conv')

lemma cell_update: "cell (r\<lparr>cells := AList.update k v (cells r)\<rparr>) k' = (if k' = k then v else cell r k')"
  by (simp add: cell_def dict_get_update)

lemma add_columns_mono: "c \<in> set cs \<Longrightarrow> c \<in> set (add_columns cs new)"
  by (simp add: add_columns_def)

lemma add_columns_new: "c \<in> set new \<Longrightarrow> c \<in> set (add_columns cs new)"
  by (auto simp add: add_columns_def)

lemma set_value_columns: "col \<in> set (columns (set_value d i col v))"
  by (simp add: set_value_def add_columns_new)

lemma set_value_columns_mono: "c \<in> set (columns d) \<Longrightarrow> c \<in> set (columns (set_value d i col v))"
  by (simp add: set_value_def add_columns_mono)

lemma set_value_index: "df_index (set_value d i col v) = df_index d"
  by (simp add: set_value_def df_index_def comp_def)

lemma priv_save_sorted:
  "''Loss'' \<in> set (columns (df s)) \<Longrightarrow> sorted (map loss_of (rows (df (priv_save s))))"
  by (simp add: priv_save_def sort_values_def Let_def)

lemma priv_save_rows_set: "set (rows (df (priv_save s))) = set (rows (df s))"
  by (simp add: priv_save_def sort_values_def Let_def)

lemma priv_save_csv: "csv (priv_save s) = to_csv (df (priv_save s))"
  by (simp add: priv_save_def Let_def)

lemma priv_save_others:
  "heap (priv_save s) = heap s" "next_free (priv_save s) = next_free s"
  "loss (priv_save s) = loss s" "loss_summary (priv_save s) = loss_summary s"
  by (simp_all add: priv_save_def Let_def)

lemma priv_set_known:
  "index \<in> set (df_index (df s)) \<Longrightarrow>
     priv_set s index l e hp h p = (Inr (), priv_save (s\<lparr>df := updated (df s) index l e h p\<rparr>))"
  by (simp add: priv_set_def updated_def Let_def)

lemma updated_index: "df_index (updated d index l e h p) = df_index d"
  by (simp add: updated_def set_value_index)

lemma updated_columns: "''Loss'' \<in> set (columns (updated d index l e h p))"
  by (simp add: updated_def set_value_columns set_value_columns_mono)

lemma rows_set_value:
  "rows (set_value d i col v) =
     map (\<lambda>r. if label r = i then r\<lparr>cells := AList.update col v (cells r)\<rparr> else r) (rows d)"
  by (simp add: set_value_def)

lemma set_value_row:
  assumes "r \<in> set (rows (set_value d i col v))"
  shows "\<exists>r0 \<in> set (rows d).
           r = (if label r0 = i then r0\<lparr>cells := AList.update col v (cells r0)\<rparr> else r0)"
  using assms unfolding rows_set_value set_map by (rule imageE) blast

lemma set_value_rowE:
  assumes "r \<in> set (rows (set_value d i col v))"
  obtains r0 where "r0 \<in> set (rows d)" and "label r0 = label r"
    and "r = (if label r0 = i then r0\<lparr>cells := AList.update col v (cells r0)\<rparr> else r0)"
proof -
  from set_value_row[OF assms] obtain r0 where r0: "r0 \<in> set (rows d)"
    and r: "r = (if label r0 = i then r0\<lparr>cells := AList.update col v (cells r0)\<rparr> else r0)"
    by blast
  have "label r = label r0"
  proof (cases "label r0 = i")
    case True
    with r have "r = r0\<lparr>cells := AList.update col v (cells r0)\<rparr>" by simp
    then show ?thesis by simp
  next
    case False
    with r show ?thesis by simp
  qed
  with r0 r show ?thesis using that by simp
qed

lemma set_value_rowE2:
  assumes "r \<in> set (rows (set_value d i col v))" and "label r = i"
  obtains r0 where "r0 \<in> set (rows d)" and "label r0 = i"
    and "r = r0\<lparr>cells := AList.update col v (cells r0)\<rparr>"
proof -
  from assms(1) obtain r0 where r0: "r0 \<in> set (rows d)" and l: "label r0 = label r"
    and r: "r = (if label r0 = i then r0\<lparr>cells := AList.update col v (cells r0)\<rparr> else r0)"
    by (rule set_value_rowE)
  from l assms(2) have l0: "label r0 = i" by simp
  from r l0 have "r = r0\<lparr>cells := AList.update col v (cells r0)\<rparr>" by simp
  with r0 l0 show ?thesis using that by blast
qed

lemma set_value_cell:
  assumes "r \<in> set (rows (set_value d i col v))" and "label r = i"
  shows "cell r col = v"
proof -
  from assms obtain r0 where "r = r0\<lparr>cells := AList.update col v (cells r0)\<rparr>"
    by (rule set_value_rowE2)
  then show ?thesis by (simp add: cell_def dict_get_update)
qed

lemma set_value_keep:
  assumes "\<forall>r \<in> set (rows d). label r = i \<longrightarrow> cell r c = w" and "c \<noteq> col"
  shows "\<forall>r \<in> set (rows (set_value d i col v)). label r = i \<longrightarrow> cell r c = w"
proof (intro ballI impI)
  fix r assume r: "r \<in> set (rows (set_value d i col v))" and l: "label r = i"
  from r l obtain r0 where r0: "r0 \<in> set (rows d)" and l0: "label r0 = i"
    and eq: "r = r0\<lparr>cells := AList.update col v (cells r0)\<rparr>"
    by (rule set_value_rowE2)
  have "cell r0 c = w" using assms(1) r0 l0 by blast
  moreover have "cell r c = cell r0 c" using assms(2) by (simp add: eq cell_def dict_get_update)
  ultimately show "cell r c = w" by simp
qed

lemma set_value_all:
  "\<forall>r \<in> set (rows (set_value d i col v)). label r = i \<longrightarrow> cell r col = v"
  using set_value_cell by blast

lemma updated_cells:
  "\<forall>r \<in> set (rows (updated d index l e h p)). label r = index \<longrightarrow> cell r ''Loss'' = HFloat l"
  "\<forall>r \<in> set (rows (updated d index l e h p)). label r = index \<longrightarrow> cell r ''Epochs'' = HInt e"
  "\<forall>r \<in> set (rows (updated d index l e h p)). label r = index \<longrightarrow> cell r ''History'' = opt_str h"
  "\<forall>r \<in> set (rows (updated d index l e h p)). label r = index \<longrightarrow> cell r ''Pending'' = HBool p"
  unfolding updated_def
  by (intro set_value_keep set_value_all; simp)+


lemma update_keys_mono: "k \<in> fst ` set d \<Longrightarrow> k \<in> fst ` set (AList.update k' v d)"
  by (induction d) auto

lemma dict_update_keys: "k \<in> fst ` set d \<Longrightarrow> k \<in> fst ` set (dict_update d other)"
proof -
  have "k \<in> fst ` set d \<Longrightarrow> k \<in> fst ` set (fold (\<lambda>(k, v). AList.update k v) other d)"
  proof (induction other arbitrary: d)
    case Nil
    then show ?case by simp
  next
    case (Cons kv other)
    obtain k' v where kv: "kv = (k', v)" by (cases kv)
    have "k \<in> fst ` set (AList.update k' v d)" using Cons.prems by (rule update_keys_mono)
    from Cons.IH[OF this] show ?case by (simp add: kv)
  qed
  then show "k \<in> fst ` set d \<Longrightarrow> k \<in> fst ` set (dict_update d other)"
    by (simp add: dict_update_def)
qed

lemma new_line_has_Loss:
  "''Loss'' \<in> set (map fst (dict_update
       [(''ID'', i), (''Loss'', l), (''Epochs'', e), (''History'', h), (''Pending'', p)] other))"
proof -
  have "''Loss'' \<in> fst ` set [(''ID'', i), (''Loss'', l), (''Epochs'', e), (''History'', h), (''Pending'', p)]"
    by simp
  from dict_update_keys[OF this] show ?thesis by simp
qed

lemma priv_set_fresh_form:
  assumes "index \<notin> set (df_index (df s))" and "heap s a \<noteq> []"
  shows "\<exists>s0. priv_set s index l e (Some a) h p = (Inr (), priv_save s0) \<and>
               ''Loss'' \<in> set (columns (df s0)) \<and>
               (\<forall>b. b \<noteq> next_free s \<longrightarrow> heap s0 b = heap s b)"
proof -
  define s1 where "s1 = s\<lparr>heap := (heap s)(next_free s := heap s a), next_free := Suc (next_free s)\<rparr>"
  define s2 where "s2 = flatten_loop (next_free s) (map fst (heap s1 (next_free s))) s1"
  define nd where "nd = dict_update
                           [(''ID'', HInt index), (''Loss'', HFloat l), (''Epochs'', HInt e),
                            (''History'', opt_str h), (''Pending'', HBool p)]
                           (heap s2 (next_free s))"
  define s0 where "s0 = s2\<lparr>df := df_append (df s2) \<lparr>columns = map fst nd, rows = [\<lparr>label = index, cells = nd\<rparr>]\<rparr>\<rparr>"
  have eq: "priv_set s index l e (Some a) h p = (Inr (), priv_save s0)"
    using assms by (simp add: priv_set_def deepcopy_def new_dict_def s0_def nd_def s2_def s1_def Let_def)
  have "''Loss'' \<in> set (map fst nd)" unfolding nd_def by (rule new_line_has_Loss)
  then have cols: "''Loss'' \<in> set (columns (df s0))"
    by (simp add: s0_def df_append_def add_columns_new)
  have hp: "\<forall>b. b \<noteq> next_free s \<longrightarrow> heap s0 b = heap s b"
    by (simp add: s0_def s2_def flatten_loop_heap s1_def)
  from eq cols hp show ?thesis by blast
qed

lemma priv_set_persist:
  assumes "fst (priv_set s index l e hp h p) = Inr ()"
  shows "csv (snd (priv_set s index l e hp h p)) = to_csv (df (snd (priv_set s index l e hp h p)))"
    and "sorted (map loss_of (rows (df (snd (priv_set s index l e hp h p)))))"
proof -
  have "\<exists>s0. snd (priv_set s index l e hp h p) = priv_save s0 \<and> ''Loss'' \<in> set (columns (df s0))"
  proof (cases "index \<in> set (df_index (df s))")
    case True
    have "''Loss'' \<in> set (columns (df (s\<lparr>df := updated (df s) index l e h p\<rparr>)))"
      by (simp add: updated_columns)
    moreover have "snd (priv_set s index l e hp h p) =
        priv_save (s\<lparr>df := updated (df s) index l e h p\<rparr>)"
      using True by (simp add: priv_set_known)
    ultimately show ?thesis by blast
  next
    case False
    from assms False obtain a where hp: "hp = Some a" and ne: "heap s a \<noteq> []"
      by (cases hp; cases "heap s (the hp) = []") (simp_all add: priv_set_def)
    from priv_set_fresh_form[OF False ne, of l e h p] show ?thesis using hp by auto
  qed
  then obtain s0 where s0: "snd (priv_set s index l e hp h p) = priv_save s0"
    and cols: "''Loss'' \<in> set (columns (df s0))" by blast
  show "csv (snd (priv_set s index l e hp h p)) = to_csv (df (snd (priv_set s index l e hp h p)))"
    by (simp add: s0 priv_save_csv)
  show "sorted (map loss_of (rows (df (snd (priv_set s index l e hp h p)))))"
    by (simp add: s0 priv_save_sorted[OF cols])
qed

lemma priv_set_heap:
  assumes "a < next_free s"
  shows "heap (snd (priv_set s index l e hp h p)) a = heap s a"
proof (cases "fst (priv_set s index l e hp h p)")
  case (Inl err)
  then show ?thesis by (simp add: priv_set_fail)
next
  case (Inr u)
  show ?thesis
  proof (cases "index \<in> set (df_index (df s))")
    case True
    then show ?thesis by (simp add: priv_set_known priv_save_others)
  next
    case False
    from Inr False obtain b where hp: "hp = Some b" and ne: "heap s b \<noteq> []"
      by (cases hp; cases "heap s (the hp) = []") (simp_all add: priv_set_def)
    from priv_set_fresh_form[OF False ne, of l e h p] obtain s0
      where "priv_set s index l e (Some b) h p = (Inr (), priv_save s0)"
        and "\<forall>c. c \<noteq> next_free s \<longrightarrow> heap s0 c = heap s c" by blast
    with assms hp show ?thesis by (simp add: priv_save_others)
  qed
qed

section \<open>Index allocation\<close>



lemma on_start_unfold:
  "on_start s hp =
     (case fst (priv_set s (next_index s) PInf 0 hp None True) of
        Inl e \<Rightarrow> (Inl e, snd (priv_set s (next_index s) PInf 0 hp None True))
      | Inr _ \<Rightarrow> (Inr (next_index s), snd (priv_set s (next_index s) PInf 0 hp None True)))"
  by (simp add: on_start_def next_index_def Let_def split: prod.splits sum.splits)









section \<open>Finishing a trial\<close>

lemma on_finish_unfold:
  "on_finish fs s index historyfile =
     (if index \<notin> set (get_indices s) then (Inl IndexNotFound, s)
      else
        (case fs historyfile of
           OSError \<Rightarrow> (Inl HistoryUnavailable, s)
         | Pickled history \<Rightarrow>
             (case map_of history (loss s) of
                None \<Rightarrow> (Inl MissingMetric, s)
              | Some readings \<Rightarrow>
                  (Inr (), priv_save (s\<lparr>df := updated (df s) index
                       (if 0 < length readings then loss_summary s readings else PInf)
                       (int (length readings)) (Some historyfile) False\<rparr>)))))"
  by (simp add: on_finish_def get_indices_def priv_set_known Let_def
      split: history_file.splits option.splits)

lemma on_finish_fail:
  "fst (on_finish fs s index historyfile) = Inl err \<Longrightarrow> snd (on_finish fs s index historyfile) = s"
  by (simp add: on_finish_unfold split: if_splits history_file.splits option.splits)

lemma on_finish_ok:
  assumes "index \<in> set (get_indices s)" and "fs historyfile = Pickled history"
    and "map_of history (loss s) = Some readings"
  shows "on_finish fs s index historyfile =
           (Inr (), priv_save (s\<lparr>df := updated (df s) index
                       (if 0 < length readings then loss_summary s readings else PInf)
                       (int (length readings)) (Some historyfile) False\<rparr>))"
  using assms by (simp add: on_finish_unfold)

text \<open>
  C3. When the index is in the table, the history file loads and holds the configured
  metric, \<^verbatim>\<open>on_finish\<close> succeeds, and the row of that index then has \<^verbatim>\<open>Epochs\<close> equal
  to the number of readings, \<^verbatim>\<open>Loss\<close> equal to the summary of the readings, or
  \<^verbatim>\<open>np.inf\<close> when there is no reading (and then \<^verbatim>\<open>Epochs\<close> is 0), \<^verbatim>\<open>History\<close> equal
  to the given path and \<^verbatim>\<open>Pending\<close> false.
\<close>

theorem on_finish_postcondition:
  assumes "index \<in> set (get_indices s)" and "fs historyfile = Pickled history"
    and "map_of history (loss s) = Some readings"
  shows "fst (on_finish fs s index historyfile) = Inr () \<and>
         index \<in> set (get_indices (snd (on_finish fs s index historyfile))) \<and>
         (\<forall>r \<in> set (rows (df (snd (on_finish fs s index historyfile)))). label r = index \<longrightarrow>
            cell r ''Epochs'' = HInt (int (length readings)) \<and>
            cell r ''Loss'' = HFloat (if 0 < length readings then loss_summary s readings else PInf) \<and>
            cell r ''History'' = HStr historyfile \<and>
            cell r ''Pending'' = HBool False)"
proof -
  let ?l = "if 0 < length readings then loss_summary s readings else PInf"
  let ?d = "updated (df s) index ?l (int (length readings)) (Some historyfile) False"
  have eq: "on_finish fs s index historyfile = (Inr (), priv_save (s\<lparr>df := ?d\<rparr>))"
    using assms by (rule on_finish_ok)
  have rows: "set (rows (df (snd (on_finish fs s index historyfile)))) = set (rows ?d)"
    by (simp add: eq priv_save_rows_set)
  have idx: "set (get_indices (snd (on_finish fs s index historyfile))) = set (get_indices s)"
    by (simp add: eq get_indices_def priv_save_index_set updated_index)
  show ?thesis
    using updated_cells[of "df s" index ?l "int (length readings)" "Some historyfile" False]
      assms(1)
    unfolding rows idx by (simp add: eq opt_str_def)
qed

theorem on_finish_postcondition_witness:
  "1 \<in> set (get_indices ex2) \<and>
   ex_fs ''h1'' = Pickled [(''loss'', [Fin (1/2), Fin (1/5)])] \<and>
   ex_fs ''h3'' = Pickled [(''loss'', [])] \<and>
   fst (on_finish ex_fs ex2 1 ''h1'') = Inr () \<and>
   label (rows (df (snd (on_finish ex_fs ex2 1 ''h1''))) ! 0) = 1 \<and>
   cell (rows (df (snd (on_finish ex_fs ex2 1 ''h1''))) ! 0) ''Epochs'' = HInt 2 \<and>
   cell (rows (df (snd (on_finish ex_fs ex2 1 ''h1''))) ! 0) ''Loss'' = HFloat (Fin (1/5)) \<and>
   cell (rows (df (snd (on_finish ex_fs ex2 1 ''h1''))) ! 0) ''History'' = HStr ''h1'' \<and>
   cell (rows (df (snd (on_finish ex_fs ex2 1 ''h1''))) ! 0) ''Pending'' = HBool False \<and>
   fst (on_finish ex_fs ex2 1 ''h3'') = Inr () \<and>
   label (rows (df (snd (on_finish ex_fs ex2 1 ''h3''))) ! 1) = 1 \<and>
   cell (rows (df (snd (on_finish ex_fs ex2 1 ''h3''))) ! 1) ''Epochs'' = HInt 0 \<and>
   cell (rows (df (snd (on_finish ex_fs ex2 1 ''h3''))) ! 1) ''Loss'' = HFloat PInf \<and>
   cell (rows (df (snd (on_finish ex_fs ex2 1 ''h3''))) ! 1) ''History'' = HStr ''h3'' \<and>
   cell (rows (df (snd (on_finish ex_fs ex2 1 ''h3''))) ! 1) ''Pending'' = HBool False"
proof -
  let ?r1 = "rows (df (snd (on_finish ex_fs ex2 1 ''h1''))) ! 0"
  let ?r3 = "rows (df (snd (on_finish ex_fs ex2 1 ''h3''))) ! 1"
  have i: "1 \<in> set (get_indices ex2)" by code_simp
  have f1: "ex_fs ''h1'' = Pickled [(''loss'', [Fin (1/2), Fin (1/5)])]" by code_simp
  have f3: "ex_fs ''h3'' = Pickled [(''loss'', [])]" by code_simp
  have m1: "map_of [(''loss'', [Fin (1/2), Fin (1/5)])] (loss ex2) = Some [Fin (1/2), Fin (1/5)]"
    by code_simp
  have m3: "map_of [(''loss'', [])] (loss ex2) = Some ([]::float64 list)" by code_simp
  have l: "loss_summary ex2 [Fin (1/2), Fin (1/5)] = Fin (1/5)" by code_simp
  have n1: "0 < length (rows (df (snd (on_finish ex_fs ex2 1 ''h1''))))" by code_simp
  have n3: "1 < length (rows (df (snd (on_finish ex_fs ex2 1 ''h3''))))" by code_simp
  have l1: "label ?r1 = 1" by code_simp
  have l3: "label ?r3 = 1" by code_simp
  have in1: "?r1 \<in> set (rows (df (snd (on_finish ex_fs ex2 1 ''h1''))))"
    using n1 by (rule nth_mem)
  have in3: "?r3 \<in> set (rows (df (snd (on_finish ex_fs ex2 1 ''h3''))))"
    using n3 by (rule nth_mem)
  note p1 = on_finish_postcondition[where fs = ex_fs and historyfile = "''h1''", OF i f1 m1]
  note p3 = on_finish_postcondition[where fs = ex_fs and historyfile = "''h3''", OF i f3 m3]
  have c1: "cell ?r1 ''Epochs'' = HInt 2 \<and> cell ?r1 ''Loss'' = HFloat (Fin (1/5)) \<and>
      cell ?r1 ''History'' = HStr ''h1'' \<and> cell ?r1 ''Pending'' = HBool False"
    using p1[THEN conjunct2, THEN conjunct2, rule_format, OF in1 l1] l by simp
  have c3: "cell ?r3 ''Epochs'' = HInt 0 \<and> cell ?r3 ''Loss'' = HFloat PInf \<and>
      cell ?r3 ''History'' = HStr ''h3'' \<and> cell ?r3 ''Pending'' = HBool False"
    using p3[THEN conjunct2, THEN conjunct2, rule_format, OF in3 l3] by simp
  show ?thesis
    using i f1 f3 p1[THEN conjunct1] p3[THEN conjunct1] l1 l3 c1 c3 by simp
qed

text \<open>
  C4. A failed \<^verbatim>\<open>on_finish\<close> (unknown index, history file that cannot be opened, metric
  key absent) leaves the whole state as it was: table, file and registry; in particular
  no \<^verbatim>\<open>Pending\<close>, \<^verbatim>\<open>Loss\<close>, \<^verbatim>\<open>Epochs\<close> or \<^verbatim>\<open>History\<close> cell has changed.
\<close>

theorem on_finish_failure_atomic:
  "fst (on_finish fs s index historyfile) = Inl err \<Longrightarrow>
     snd (on_finish fs s index historyfile) = s"
  by (rule on_finish_fail)

theorem on_finish_failure_atomic_witness:
  "fst (on_finish ex_fs ex2 7 ''h1'') = Inl IndexNotFound \<and>
   snd (on_finish ex_fs ex2 7 ''h1'') = ex2 \<and>
   fst (on_finish ex_fs ex2 1 ''lost'') = Inl HistoryUnavailable \<and>
   snd (on_finish ex_fs ex2 1 ''lost'') = ex2 \<and>
   fst (on_finish ex_fs ex2 1 ''h2'') = Inl MissingMetric \<and>
   snd (on_finish ex_fs ex2 1 ''h2'') = ex2"
proof -
  have a: "fst (on_finish ex_fs ex2 7 ''h1'') = Inl IndexNotFound" by code_simp
  have b: "fst (on_finish ex_fs ex2 1 ''lost'') = Inl HistoryUnavailable" by code_simp
  have c: "fst (on_finish ex_fs ex2 1 ''h2'') = Inl MissingMetric" by code_simp
  show ?thesis
    using a b c on_finish_failure_atomic[OF a] on_finish_failure_atomic[OF b]
      on_finish_failure_atomic[OF c]
    by blast
qed




section \<open>Persistence\<close>

lemma csv_rows_loss: "map loss_of_cells (snd (to_csv d)) = map loss_of (rows d)"
  by (simp add: to_csv_def loss_of_def comp_def)

lemma priv_set_written:
  assumes "fst (priv_set s index l e hp h p) = Inr ()"
  shows "written_through (snd (priv_set s index l e hp h p))"
  using priv_set_persist[OF assms] by (simp add: csv_rows_loss)

lemma on_start_snd: "snd (on_start s hp) = snd (priv_set s (next_index s) PInf 0 hp None True)"
  by (simp add: on_start_unfold split: sum.splits)

lemma on_start_fst:
  "fst (on_start s hp) = Inr i \<Longrightarrow> fst (priv_set s (next_index s) PInf 0 hp None True) = Inr ()"
  by (simp add: on_start_unfold split: sum.splits)

lemma on_finish_as_set:
  assumes "fst (on_finish fs s index historyfile) = Inr ()"
  shows "\<exists>l e. on_finish fs s index historyfile = priv_set s index l e None (Some historyfile) False"
  using assms
  by (auto simp add: on_finish_def Let_def split: if_splits history_file.splits option.splits)

text \<open>
  C9. After every completed mutation, that is a successful \<^verbatim>\<open>_set\<close>, \<^verbatim>\<open>on_start\<close> or
  \<^verbatim>\<open>on_finish\<close>, the file holds exactly the table as it is in memory after the mutation,
  and its rows are sorted by \<^verbatim>\<open>Loss\<close> ascending.
\<close>

theorem write_through:
  "(fst (priv_set s index l e hp h p) = Inr () \<longrightarrow>
      written_through (snd (priv_set s index l e hp h p))) \<and>
   (fst (on_start s hp) = Inr i \<longrightarrow> written_through (snd (on_start s hp))) \<and>
   (fst (on_finish fs s index historyfile) = Inr () \<longrightarrow>
      written_through (snd (on_finish fs s index historyfile)))"
proof (intro conjI impI)
  assume "fst (priv_set s index l e hp h p) = Inr ()"
  then show "csv (snd (priv_set s index l e hp h p)) = to_csv (df (snd (priv_set s index l e hp h p)))"
    "sorted (map loss_of (rows (df (snd (priv_set s index l e hp h p)))))"
    "sorted (map loss_of_cells (snd (csv (snd (priv_set s index l e hp h p)))))"
    using priv_set_written by blast+
next
  assume "fst (on_start s hp) = Inr i"
  then have "fst (priv_set s (next_index s) PInf 0 hp None True) = Inr ()" by (rule on_start_fst)
  then have "written_through (snd (priv_set s (next_index s) PInf 0 hp None True))"
    by (rule priv_set_written)
  then show "csv (snd (on_start s hp)) = to_csv (df (snd (on_start s hp)))"
    "sorted (map loss_of (rows (df (snd (on_start s hp)))))"
    "sorted (map loss_of_cells (snd (csv (snd (on_start s hp)))))"
    by (simp_all add: on_start_snd csv_rows_loss)
next
  assume ok: "fst (on_finish fs s index historyfile) = Inr ()"
  then obtain l' e' where eq: "on_finish fs s index historyfile = priv_set s index l' e' None (Some historyfile) False"
    using on_finish_as_set by blast
  with ok have "fst (priv_set s index l' e' None (Some historyfile) False) = Inr ()" by simp
  then have "written_through (snd (priv_set s index l' e' None (Some historyfile) False))"
    by (rule priv_set_written)
  then show "csv (snd (on_finish fs s index historyfile)) = to_csv (df (snd (on_finish fs s index historyfile)))"
    "sorted (map loss_of (rows (df (snd (on_finish fs s index historyfile)))))"
    "sorted (map loss_of_cells (snd (csv (snd (on_finish fs s index historyfile)))))"
    by (simp_all add: eq csv_rows_loss)
qed

theorem write_through_witness:
  "fst (priv_set ex3 0 (Fin (1/5)) 1 (Some 0) (Some ''h0'') False) = Inr () \<and>
   fst (on_start ex3 (Some 0)) = Inr 2 \<and>
   fst (on_finish ex_fs ex3 0 ''h0'') = Inr () \<and>
   written_through (snd (priv_set ex3 0 (Fin (1/5)) 1 (Some 0) (Some ''h0'') False)) \<and>
   written_through (snd (on_start ex3 (Some 0))) \<and>
   written_through (snd (on_finish ex_fs ex3 0 ''h0'')) \<and>
   map loss_of_cells (snd (csv (snd (on_finish ex_fs ex3 0 ''h0'')))) = [Fin (1/5), Fin (1/5)]"
proof -
  have a: "fst (priv_set ex3 0 (Fin (1/5)) 1 (Some 0) (Some ''h0'') False) = Inr ()" by code_simp
  have b: "fst (on_start ex3 (Some 0)) = Inr 2" by code_simp
  have c: "fst (on_finish ex_fs ex3 0 ''h0'') = Inr ()" by code_simp
  have d: "map loss_of_cells (snd (csv (snd (on_finish ex_fs ex3 0 ''h0'')))) = [Fin (1/5), Fin (1/5)]"
    by code_simp
  note w = write_through[of ex3 0 "Fin (1/5)" 1 "Some 0" "Some ''h0''" False 2 ex_fs "''h0''"]
  show ?thesis using a b c d w by blast
qed

section \<open>The caller's hyperparameter dict\<close>

text \<open>
  C10. \<^verbatim>\<open>_set\<close> and \<^verbatim>\<open>on_start\<close> leave every dict that exists at the call as it was, the
  caller's \<^verbatim>\<open>hp\<close> among them: the list and dict values are turned into strings in the
  deep copy only.
\<close>

theorem hp_not_mutated:
  "a < next_free s \<Longrightarrow>
     heap (snd (priv_set s index l e hp h p)) a = heap s a \<and>
     heap (snd (on_start s hp)) a = heap s a"
  by (simp add: priv_set_heap on_start_snd)

theorem hp_not_mutated_witness:
  "0 < next_free ex0 \<and> heap ex0 0 = ex_hp \<and> heap (snd (on_start ex0 (Some 0))) 0 = ex_hp \<and>
   dict_get ex_hp ''layers'' = HList [HInt 3, HInt 4] \<and>
   cell (rows (df (snd (on_start ex0 (Some 0)))) ! 0) ''layers'' = HStrOf (HList [HInt 3, HInt 4])"
proof -
  have a: "0 < next_free ex0" by code_simp
  have b: "heap ex0 0 = ex_hp" by code_simp
  have c: "dict_get ex_hp ''layers'' = HList [HInt 3, HInt 4]" by code_simp
  have d: "cell (rows (df (snd (on_start ex0 (Some 0)))) ! 0) ''layers'' =
             HStrOf (HList [HInt 3, HInt 4])" by code_simp
  show ?thesis using hp_not_mutated[OF a, of 0 PInf 0 "Some 0" None True] a b c d by simp
qed

section \<open>Methods that raise\<close>

text \<open>
  C2 on the code. After \<^verbatim>\<open>on_start\<close> has returned index 0, the row of that index has
  \<^verbatim>\<open>Pending\<close> true, but \<^verbatim>\<open>get_pending()\<close> returns no set of indices: it raises
  \<^verbatim>\<open>NotImplementedError\<close>.
\<close>

theorem get_pending_not_implemented:
  "fst (on_start ex0 (Some 0)) = Inr 0 \<and>
   map label (rows (df (snd (on_start ex0 (Some 0))))) = [0] \<and>
   cell (rows (df (snd (on_start ex0 (Some 0)))) ! 0) ''Pending'' = HBool True \<and>
   fst (get_pending (snd (on_start ex0 (Some 0)))) = Inl NotImplementedError"
  by code_simp

lemma update_hist2loss_frame:
  "df (snd (update_hist2loss s h)) = df s"
  "csv (snd (update_hist2loss s h)) = csv s"
  "loss_summary (snd (update_hist2loss s h)) = loss_summary s"
  by (cases "df_index (df s)"; simp add: update_hist2loss_def split: sum.splits)+

text \<open>
  C5 on the code. On a table with a finished trial \<^verbatim>\<open>update_hist2loss\<close> raises
  \<^verbatim>\<open>AttributeError\<close>; the table and the file are as before, and the summary function in
  use is still the old one (the last reading, where the new one gives the first). On a
  table without rows it returns, and the summary function in use is the old one as well.
\<close>

theorem update_hist2loss_fails:
  "fst (update_hist2loss ex3 ex_first) = Inl AttributeError \<and>
   df (snd (update_hist2loss ex3 ex_first)) = df ex3 \<and>
   csv (snd (update_hist2loss ex3 ex_first)) = csv ex3 \<and>
   loss_summary (snd (update_hist2loss ex3 ex_first)) = loss_summary ex3 \<and>
   loss_summary ex3 [Fin (1/2), Fin (1/5)] = Fin (1/5) \<and>
   ex_first [Fin (1/2), Fin (1/5)] = Fin (1/2) \<and>
   fst (update_hist2loss ex0 ex_first) = Inr () \<and>
   loss_summary (snd (update_hist2loss ex0 ex_first)) = loss_summary ex0"
proof -
  have a: "fst (update_hist2loss ex3 ex_first) = Inl AttributeError" by code_simp
  have b: "loss_summary ex3 [Fin (1/2), Fin (1/5)] = Fin (1/5)" by code_simp
  have c: "ex_first [Fin (1/2), Fin (1/5)] = Fin (1/2)" by code_simp
  have d: "fst (update_hist2loss ex0 ex_first) = Inr ()" by code_simp
  show ?thesis using a b c d by (simp add: update_hist2loss_frame)
qed

section \<open>Selection of the lowest losses\<close>

lemma get_k_lowest_unfold:
  assumes "''Loss'' \<in> set (columns (df s))"
  shows "get_k_lowest s k ip =
     (if length (candidates s ip) < k then (Inl InsufficientResults, s)
      else (Inr \<lparr>columns = columns (df s), rows = take k (sort_key loss_of (candidates s ip))\<rparr>, s))"
  using assms by (cases ip) (simp_all add: get_k_lowest_def sort_values_def Let_def filter_sort)






lemma get_k_lowest_snd: "snd (get_k_lowest s k ip) = s"
  by (simp add: get_k_lowest_def Let_def)

lemma get_k_lowest_length:
  assumes "fst (get_k_lowest s k ip) = Inr data"
  shows "length (rows data) = k"
proof (cases "''Loss'' \<in> set (columns (df s))")
  case True
  from assms show ?thesis
    unfolding get_k_lowest_unfold[OF True] by (auto split: if_splits)
next
  case False
  with assms show ?thesis by (simp add: get_k_lowest_def)
qed

lemma get_best_unfold:
  "get_best s ip =
     (case fst (get_k_lowest s 1 ip) of
        Inl e \<Rightarrow> (Inl e, s)
      | Inr data \<Rightarrow>
          (case rows data of
             [] \<Rightarrow> (Inl IndexError, s)
           | r # _ \<Rightarrow> (Inr (zip keys (map (\<lambda>k. cell r k) keys)), s)))"
proof -
  obtain res s' where k: "get_k_lowest s 1 ip = (res, s')" by (cases "get_k_lowest s 1 ip")
  have s': "s' = s" using get_k_lowest_snd[of s 1 ip] k by simp
  show ?thesis unfolding get_best_def k s' by (cases res) simp_all
qed

text \<open>
  C7, as the code has it. \<^verbatim>\<open>get_best\<close> does not change the state, fails with the error of
  \<^verbatim>\<open>get_k_lowest(1, ignore_pending)\<close> when that fails, and otherwise returns the single
  row of its result as a dict with exactly the five keys \<^verbatim>\<open>ID\<close>, \<^verbatim>\<open>Loss\<close>,
  \<^verbatim>\<open>Epochs\<close>, \<^verbatim>\<open>History\<close>, \<^verbatim>\<open>Pending\<close>; no hyperparameter column is a key of it.
\<close>

theorem get_best_repackages:
  "snd (get_best s ip) = s \<and>
   (fst (get_k_lowest s 1 ip) = Inl e \<longrightarrow> fst (get_best s ip) = Inl e) \<and>
   (fst (get_k_lowest s 1 ip) = Inr data \<longrightarrow>
      (\<exists>r. rows data = [r] \<and>
           fst (get_best s ip) =
             Inr [(''ID'', cell r ''ID''), (''Loss'', cell r ''Loss''),
                  (''Epochs'', cell r ''Epochs''), (''History'', cell r ''History''),
                  (''Pending'', cell r ''Pending'')]))"
proof (intro conjI impI)
  show "snd (get_best s ip) = s"
    unfolding get_best_unfold by (simp split: sum.splits list.splits)
next
  assume "fst (get_k_lowest s 1 ip) = Inl e"
  then show "fst (get_best s ip) = Inl e"
    unfolding get_best_unfold by simp
next
  assume ok: "fst (get_k_lowest s 1 ip) = Inr data"
  from get_k_lowest_length[OF ok] obtain r where r: "rows data = [r]"
    by (cases "rows data") auto
  have "fst (get_best s ip) =
             Inr [(''ID'', cell r ''ID''), (''Loss'', cell r ''Loss''),
                  (''Epochs'', cell r ''Epochs''), (''History'', cell r ''History''),
                  (''Pending'', cell r ''Pending'')]"
    unfolding get_best_unfold ok by (simp add: r keys_def)
  with r show "\<exists>r. rows data = [r] \<and>
           fst (get_best s ip) =
             Inr [(''ID'', cell r ''ID''), (''Loss'', cell r ''Loss''),
                  (''Epochs'', cell r ''Epochs''), (''History'', cell r ''History''),
                  (''Pending'', cell r ''Pending'')]" by blast
qed

theorem get_best_repackages_witness:
  "\<not> isl (fst (get_k_lowest ex6 1 True)) \<and>
   (\<exists>r. rows (projr (fst (get_k_lowest ex6 1 True))) = [r] \<and>
        fst (get_best ex6 True) =
          Inr [(''ID'', cell r ''ID''), (''Loss'', cell r ''Loss''),
               (''Epochs'', cell r ''Epochs''), (''History'', cell r ''History''),
               (''Pending'', cell r ''Pending'')]) \<and>
   fst (get_k_lowest ex0 1 True) = Inl KeyError \<and>
   fst (get_best ex0 True) = Inl KeyError"
proof -
  have a: "\<not> isl (fst (get_k_lowest ex6 1 True))" by code_simp
  then have b: "fst (get_k_lowest ex6 1 True) = Inr (projr (fst (get_k_lowest ex6 1 True)))"
    by simp
  have c: "fst (get_k_lowest ex0 1 True) = Inl KeyError" by code_simp
  show ?thesis
    using get_best_repackages[of ex6 True _ "projr (fst (get_k_lowest ex6 1 True))"]
      get_best_repackages[of ex0 True KeyError] a b c
    by blast
qed

text \<open>
  The hyperparameter columns \<^verbatim>\<open>lr\<close> and \<^verbatim>\<open>layers\<close> are columns of the table, and
  \<^verbatim>\<open>lr\<close> is registered in \<^verbatim>\<open>dtypes\<close>, but the dict that \<^verbatim>\<open>get_best\<close> returns has the
  five fixed keys only.
\<close>

theorem get_best_keys_counterexample:
  "''lr'' \<in> set (columns (df ex4)) \<and> ''layers'' \<in> set (columns (df ex4)) \<and>
   ''lr'' \<in> set (map fst (dtypes ex4)) \<and>
   fst (get_best ex4 True) =
     Inr [(''ID'', HInt 1), (''Loss'', HFloat (Fin (1/5))), (''Epochs'', HInt 2),
          (''History'', HStr ''h1''), (''Pending'', HBool False)]"
  by code_simp

end
